theory Spec2Isabelle
  imports Main "HOL-Library.List_Lexorder"
begin

section \<open>Characters and strings\<close>

text \<open>
  A Python \<open>str\<close> is a sequence of code points.  It is modelled as a \<^typ>\<open>string\<close>, each
  \<^typ>\<open>char\<close> standing for the code point of the same number (U+0000 to U+00FF).  The
  character classes below are the ones of Python 3 on that range: \<open>\s\<close> and
  \<open>str.isspace\<close>, \<open>\d\<close>, \<open>\w\<close>, \<open>str.isdigit\<close>, \<open>str.isalpha\<close>, \<open>str.lower\<close>,
  \<open>str.upper\<close> and \<open>str.casefold\<close>.
\<close>

definition code :: "char \<Rightarrow> nat" where
  "code c = of_char c"

definition in_range :: "nat \<Rightarrow> nat \<Rightarrow> char \<Rightarrow> bool" where
  "in_range lo hi c \<longleftrightarrow> lo \<le> code c \<and> code c \<le> hi"

definition is_space :: "char \<Rightarrow> bool" where
  "is_space c \<longleftrightarrow> in_range 0x09 0x0D c \<or> in_range 0x1C 0x20 c \<or> code c = 0x85 \<or> code c = 0xA0"

definition is_digit :: "char \<Rightarrow> bool" where
  "is_digit c \<longleftrightarrow> in_range 0x30 0x39 c"

definition is_ascii_upper :: "char \<Rightarrow> bool" where
  "is_ascii_upper c \<longleftrightarrow> in_range 0x41 0x5A c"

definition is_ascii_lower :: "char \<Rightarrow> bool" where
  "is_ascii_lower c \<longleftrightarrow> in_range 0x61 0x7A c"

definition is_ascii_letter :: "char \<Rightarrow> bool" where
  "is_ascii_letter c \<longleftrightarrow> is_ascii_upper c \<or> is_ascii_lower c"

definition is_latin_upper :: "char \<Rightarrow> bool" where
  "is_latin_upper c \<longleftrightarrow> in_range 0xC0 0xDE c \<and> code c \<noteq> 0xD7"

definition is_latin_lower :: "char \<Rightarrow> bool" where
  "is_latin_lower c \<longleftrightarrow> in_range 0xDF 0xFF c \<and> code c \<noteq> 0xF7"

definition is_alpha :: "char \<Rightarrow> bool" where
  "is_alpha c \<longleftrightarrow> is_ascii_letter c \<or> is_latin_upper c \<or> is_latin_lower c
     \<or> code c = 0xAA \<or> code c = 0xB5 \<or> code c = 0xBA"

definition is_uni_digit :: "char \<Rightarrow> bool" where
  "is_uni_digit c \<longleftrightarrow> is_digit c \<or> code c = 0xB2 \<or> code c = 0xB3 \<or> code c = 0xB9"

definition is_word :: "char \<Rightarrow> bool" where
  "is_word c \<longleftrightarrow> is_alpha c \<or> is_uni_digit c \<or> c = CHR ''_'' \<or> in_range 0xBC 0xBE c"

definition lower_char :: "char \<Rightarrow> char" where
  "lower_char c = (if is_ascii_upper c \<or> is_latin_upper c then char_of (code c + 32) else c)"

definition upper_char :: "char \<Rightarrow> string" where
  "upper_char c =
     (if code c = 0xDF then ''SS''
      else if is_ascii_lower c \<or> (is_latin_lower c \<and> code c \<noteq> 0xFF)
      then [char_of (code c - 32)] else [c])"

text \<open>
  \<open>str.casefold\<close> lowers a character and writes U+00DF as \<open>ss\<close>.  It sends U+00B5 to
  U+03BC, which is no code point of \<^typ>\<open>char\<close>; the model keeps U+00B5, as
  \<open>str.upper\<close> keeps U+00B5 and U+00FF here.
\<close>

definition casefold_char :: "char \<Rightarrow> string" where
  "casefold_char c = (if code c = 0xDF then ''ss'' else [lower_char c])"

definition py_lower :: "string \<Rightarrow> string" where
  "py_lower s = map lower_char s"

definition py_upper :: "string \<Rightarrow> string" where
  "py_upper s = concat (map upper_char s)"

definition py_casefold :: "string \<Rightarrow> string" where
  "py_casefold s = concat (map casefold_char s)"

definition py_lstrip :: "string \<Rightarrow> string" where
  "py_lstrip s = dropWhile is_space s"

definition py_rstrip :: "string \<Rightarrow> string" where
  "py_rstrip s = rev (dropWhile is_space (rev s))"

definition py_strip :: "string \<Rightarrow> string" where
  "py_strip s = py_rstrip (py_lstrip s)"

definition py_lstrip_chars :: "string \<Rightarrow> string \<Rightarrow> string" where
  "py_lstrip_chars cs s = dropWhile (\<lambda>c. c \<in> set cs) s"

definition py_strip_chars :: "string \<Rightarrow> string \<Rightarrow> string" where
  "py_strip_chars cs s = rev (dropWhile (\<lambda>c. c \<in> set cs) (rev (dropWhile (\<lambda>c. c \<in> set cs) s)))"

definition py_isdigit :: "string \<Rightarrow> bool" where
  "py_isdigit s \<longleftrightarrow> s \<noteq> [] \<and> list_all is_uni_digit s"

definition py_isalpha :: "string \<Rightarrow> bool" where
  "py_isalpha s \<longleftrightarrow> s \<noteq> [] \<and> list_all is_alpha s"

text \<open>\<open>str.islower\<close>: some cased character, and no upper-case one.\<close>

definition py_islower :: "string \<Rightarrow> bool" where
  "py_islower s \<longleftrightarrow>
     list_ex (\<lambda>c. is_ascii_lower c \<or> is_latin_lower c \<or> code c = 0xAA \<or> code c = 0xB5 \<or> code c = 0xBA) s
     \<and> \<not> list_ex (\<lambda>c. is_ascii_upper c \<or> is_latin_upper c) s"

text \<open>\<open>str(n)\<close> for an integer, and \<open>int(s)\<close> for a string of decimal digits.\<close>

fun digits_of :: "nat \<Rightarrow> string" where
  "digits_of n = (if n < 10 then [char_of (48 + n)] else digits_of (n div 10) @ [char_of (48 + n mod 10)])"

definition py_str :: "int \<Rightarrow> string" where
  "py_str i = (if i < 0 then CHR ''-'' # digits_of (nat (- i)) else digits_of (nat i))"

definition py_int :: "string \<Rightarrow> int" where
  "py_int s = foldl (\<lambda>acc c. 10 * acc + int (code c - 48)) 0 s"

definition zfill :: "nat \<Rightarrow> string \<Rightarrow> string" where
  "zfill w s = replicate (w - length s) CHR ''0'' @ s"

fun join :: "string \<Rightarrow> string list \<Rightarrow> string" where
  "join sep [] = []"
| "join sep [x] = x"
| "join sep (x # y # ys) = x @ sep @ join sep (y # ys)"

section \<open>Regular expressions\<close>

text \<open>
  The patterns of the source are Python \<open>re\<close> patterns.  A \<^emph>\<open>cursor\<close> is a position in the
  subject: the text before it, reversed, and the text after it.  \<open>ends r z\<close> lists the
  positions where a match of \<open>r\<close> that starts at \<open>z\<close> can end, in the order in which the
  backtracking matcher tries them; the first one is the match Python reports.  A look-around,
  an anchor or \<open>\b\<close> is a predicate on the cursor.  No starred pattern of the source matches
  the empty string, so an iteration of a star always consumes at least one character.
\<close>

type_synonym cursor = "string \<times> string"

datatype rx =
    Sym "char \<Rightarrow> bool"
  | Eps
  | Look "cursor \<Rightarrow> bool"
  | Cat rx rx
  | Alt rx rx
  | Star rx
  | Lazy rx

fun star_ends :: "(cursor \<Rightarrow> cursor list) \<Rightarrow> nat \<Rightarrow> cursor \<Rightarrow> cursor list" where
  "star_ends step 0 z = [z]"
| "star_ends step (Suc k) z =
     concat (map (star_ends step k) (filter (\<lambda>z'. length (snd z') < length (snd z)) (step z))) @ [z]"

fun lazy_ends :: "(cursor \<Rightarrow> cursor list) \<Rightarrow> nat \<Rightarrow> cursor \<Rightarrow> cursor list" where
  "lazy_ends step 0 z = [z]"
| "lazy_ends step (Suc k) z =
     z # concat (map (lazy_ends step k) (filter (\<lambda>z'. length (snd z') < length (snd z)) (step z)))"

primrec ends :: "rx \<Rightarrow> cursor \<Rightarrow> cursor list" where
  "ends (Sym P) z = (case snd z of [] \<Rightarrow> [] | c # cs \<Rightarrow> if P c then [(c # fst z, cs)] else [])"
| "ends Eps z = [z]"
| "ends (Look P) z = (if P z then [z] else [])"
| "ends (Cat a b) z = concat (map (ends b) (ends a z))"
| "ends (Alt a b) z = ends a z @ ends b z"
| "ends (Star a) z = star_ends (ends a) (length (snd z)) z"
| "ends (Lazy a) z = lazy_ends (ends a) (length (snd z)) z"

definition Plus :: "rx \<Rightarrow> rx" where
  "Plus r = Cat r (Star r)"

definition Opt :: "rx \<Rightarrow> rx" where
  "Opt r = Alt r Eps"

definition Chr :: "char \<Rightarrow> rx" where
  "Chr c = Sym (\<lambda>x. x = c)"

definition OneOf :: "string \<Rightarrow> rx" where
  "OneOf cs = Sym (\<lambda>x. x \<in> set cs)"

text \<open>A literal under \<open>re.IGNORECASE\<close>.\<close>

definition ChrI :: "char \<Rightarrow> rx" where
  "ChrI c = Sym (\<lambda>x. lower_char x = lower_char c)"

fun Cats :: "rx list \<Rightarrow> rx" where
  "Cats [] = Eps"
| "Cats [r] = r"
| "Cats (r # rs) = Cat r (Cats rs)"

definition LitI :: "string \<Rightarrow> rx" where
  "LitI s = Cats (map ChrI s)"

text \<open>The anchors and \<open>\b\<close>.  \<open>$\<close> also holds before a final newline.\<close>

definition at_start :: "cursor \<Rightarrow> bool" where
  "at_start z \<longleftrightarrow> fst z = []"

definition at_end :: "cursor \<Rightarrow> bool" where
  "at_end z \<longleftrightarrow> snd z = [] \<or> snd z = [CHR 0x0A]"

definition prev_is :: "(char \<Rightarrow> bool) \<Rightarrow> cursor \<Rightarrow> bool" where
  "prev_is P z = (case fst z of [] \<Rightarrow> False | c # _ \<Rightarrow> P c)"

definition next_is :: "(char \<Rightarrow> bool) \<Rightarrow> cursor \<Rightarrow> bool" where
  "next_is P z = (case snd z of [] \<Rightarrow> False | c # _ \<Rightarrow> P c)"

definition word_boundary :: "cursor \<Rightarrow> bool" where
  "word_boundary z \<longleftrightarrow> prev_is is_word z \<noteq> next_is is_word z"

text \<open>
  \<open>pattern.match\<close>, \<open>re.fullmatch\<close>, \<open>pattern.search\<close>, \<open>pattern.findall\<close> (for a pattern
  with no group) and \<open>pattern.sub\<close>.  A match is given by the cursor where it ends;
  \<open>matched q z\<close> is its text when it started with \<open>q\<close> still to read.
\<close>

definition matched :: "string \<Rightarrow> cursor \<Rightarrow> string" where
  "matched q z = take (length q - length (snd z)) q"

definition match_at :: "rx \<Rightarrow> cursor \<Rightarrow> cursor option" where
  "match_at r z = (case ends r z of [] \<Rightarrow> None | e # _ \<Rightarrow> Some e)"

definition re_match :: "rx \<Rightarrow> string \<Rightarrow> cursor option" where
  "re_match r s = match_at r ([], s)"

definition re_fullmatch :: "rx \<Rightarrow> string \<Rightarrow> bool" where
  "re_fullmatch r s \<longleftrightarrow> list_ex (\<lambda>z. snd z = []) (ends r ([], s))"

fun search_from :: "rx \<Rightarrow> string \<Rightarrow> string \<Rightarrow> bool" where
  "search_from r p [] = (ends r (p, []) \<noteq> [])"
| "search_from r p (c # cs) = (ends r (p, c # cs) \<noteq> [] \<or> search_from r (c # p) cs)"

definition re_search :: "rx \<Rightarrow> string \<Rightarrow> bool" where
  "re_search r s = search_from r [] s"

fun findall_from :: "rx \<Rightarrow> cursor \<Rightarrow> string list" where
  "findall_from r (p, q) =
     (case match_at r (p, q) of
        Some z \<Rightarrow>
          (if length (snd z) < length q then matched q z # findall_from r z
           else [] # (case q of [] \<Rightarrow> [] | c # cs \<Rightarrow> findall_from r (c # p, cs)))
      | None \<Rightarrow> (case q of [] \<Rightarrow> [] | c # cs \<Rightarrow> findall_from r (c # p, cs)))"

definition re_findall :: "rx \<Rightarrow> string \<Rightarrow> string list" where
  "re_findall r s = findall_from r ([], s)"

fun sub_from :: "rx \<Rightarrow> (string \<Rightarrow> string) \<Rightarrow> cursor \<Rightarrow> string" where
  "sub_from r repl (p, q) =
     (case match_at r (p, q) of
        Some z \<Rightarrow>
          (if length (snd z) < length q then repl (matched q z) @ sub_from r repl z
           else repl [] @ (case q of [] \<Rightarrow> [] | c # cs \<Rightarrow> c # sub_from r repl (c # p, cs)))
      | None \<Rightarrow> (case q of [] \<Rightarrow> [] | c # cs \<Rightarrow> c # sub_from r repl (c # p, cs)))"

definition re_sub :: "rx \<Rightarrow> (string \<Rightarrow> string) \<Rightarrow> string \<Rightarrow> string" where
  "re_sub r repl s = sub_from r repl ([], s)"

section \<open>Lines, headers and section chunks\<close>

text \<open>
  The pipeline passes lines, headers and section chunks as dictionaries.  Each is a record
  of the keys the code reads.  \<open>h_number = None\<close> is a missing or \<open>None\<close> number;
  \<open>h_source_idx = -1\<close> is a header with no \<open>source_idx\<close> key, the default of every
  \<open>header.get("source_idx", -1)\<close>.
\<close>

datatype py_error = IndexError

record line =
  l_text :: string
  l_page :: int
  l_global_idx :: int
  l_line_idx :: int
  l_is_toc :: bool
  l_is_index :: bool
  l_is_running :: bool

record header =
  h_text :: string
  h_number :: "string option"
  h_level :: int
  h_page :: int
  h_line_idx :: int
  h_global_idx :: int
  h_source_idx :: int

record chunk =
  ch_header_text :: string
  ch_header_number :: "string option"
  ch_level :: int
  ch_start_global_idx :: int
  ch_end_global_idx :: int
  ch_start_page :: int
  ch_end_page :: int

fun first_index :: "('a \<Rightarrow> bool) \<Rightarrow> 'a list \<Rightarrow> nat option" where
  "first_index P [] = None"
| "first_index P (x # xs) = (if P x then Some 0 else map_option Suc (first_index P xs))"

definition last_index :: "('a \<Rightarrow> bool) \<Rightarrow> 'a list \<Rightarrow> nat option" where
  "last_index P xs = map_option (\<lambda>i. length xs - 1 - i) (first_index P (rev xs))"

subsection \<open>\<open>section_chunking.single_chunks_from_headers\<close>\<close>

text \<open>
  \<open>index_by_global\<close> is filled with \<open>setdefault\<close>: the first line of each \<open>global_idx\<close>.
  A header whose \<open>global_idx\<close> is no line's is skipped.  The end of a chunk is the line
  before the next header's line, and the last line of the document for the last header.
\<close>

definition index_by_global_first :: "line list \<Rightarrow> int \<Rightarrow> nat option" where
  "index_by_global_first lines g = first_index (\<lambda>l. l_global_idx l = g) lines"

definition make_chunk :: "header \<Rightarrow> line \<Rightarrow> line \<Rightarrow> chunk" where
  "make_chunk h start_line end_line =
     \<lparr> ch_header_text = h_text h, ch_header_number = h_number h,
       ch_level = (if h_level h = 0 then 1 else h_level h),
       ch_start_global_idx = l_global_idx start_line, ch_end_global_idx = l_global_idx end_line,
       ch_start_page = l_page start_line, ch_end_page = l_page end_line \<rparr>"

fun single_chunks_from_headers :: "header list \<Rightarrow> line list \<Rightarrow> chunk list" where
  "single_chunks_from_headers [] lines = []"
| "single_chunks_from_headers (h # rest) lines =
     (case index_by_global_first lines (h_global_idx h) of
        None \<Rightarrow> single_chunks_from_headers rest lines
      | Some current_idx \<Rightarrow>
          (let end_index =
                 (case rest of
                    [] \<Rightarrow> int (length lines) - 1
                  | next_header # _ \<Rightarrow>
                      (let next_idx = (case index_by_global_first lines (h_global_idx next_header) of
                                         None \<Rightarrow> int (length lines) | Some n \<Rightarrow> int n)
                       in max (int current_idx) (next_idx - 1)))
           in if end_index < int current_idx then single_chunks_from_headers rest lines
              else make_chunk h (lines ! current_idx) (lines ! nat end_index)
                     # single_chunks_from_headers rest lines))"

subsection \<open>Numbering: \<open>headers_sequential.number_key\<close>\<close>

definition NUMBER_COMPONENT_RE :: rx where
  "NUMBER_COMPONENT_RE = Alt (Plus (Sym is_ascii_letter)) (Plus (Sym is_digit))"

definition number_tokens :: "string \<Rightarrow> string list" where
  "number_tokens num = (if num = [] then [] else re_findall NUMBER_COMPONENT_RE num)"

definition alpha_component_value :: "string \<Rightarrow> int" where
  "alpha_component_value token =
     foldl (\<lambda>total c. if is_ascii_upper c then total * 26 + (int (code c) - 65 + 1) else total)
       0 (py_upper token)"

text \<open>
  A token of \<open>number_tokens\<close> is a run of \<open>\d\<close> or a run of ASCII letters, so
  \<open>int(token)\<close> is applied to decimal digits only.
\<close>

definition component_value :: "string \<Rightarrow> int" where
  "component_value token =
     (if py_isdigit token then py_int token
      else if py_isalpha token then alpha_component_value token
      else (case re_findall (Plus (Sym is_digit)) token of d # _ \<Rightarrow> py_int d | [] \<Rightarrow> 0))"

definition number_key :: "string \<Rightarrow> int list" where
  "number_key num = map component_value (number_tokens num)"

subsection \<open>Numbering gaps: \<open>headers_orchestrator._identify_missing_headers\<close>\<close>

datatype kind = Numeric | Alpha

record component =
  c_raw :: string
  c_normalized :: string
  c_kind :: "kind option"
  c_value :: "int option"

record gap =
  g_components :: "component list"
  g_after_index :: "nat option"
  g_insert_position :: nat
  g_level :: int

definition alpha_to_int :: "string \<Rightarrow> int" where
  "alpha_to_int v =
     foldl (\<lambda>total c. if is_ascii_upper c then total * 26 + (int (code c) - 65 + 1) else total)
       0 (py_upper v)"

function int_to_alpha_loop :: "nat \<Rightarrow> string" where
  "int_to_alpha_loop remaining =
     (if remaining = 0 then []
      else char_of (65 + (remaining - 1) mod 26) # int_to_alpha_loop ((remaining - 1) div 26))"
  by pat_completeness auto
termination
  by (relation "measure id") (auto simp: div_le_mono intro: le_less_trans [OF div_le_dividend])

definition int_to_alpha :: "int \<Rightarrow> string" where
  "int_to_alpha v = (if v \<le> 0 then ''A'' else rev (int_to_alpha_loop (nat v)))"

definition extract_component :: "string \<Rightarrow> component" where
  "extract_component tok =
     (if py_isdigit tok
      then \<lparr> c_raw = tok, c_normalized = py_str (py_int tok), c_kind = Some Numeric,
             c_value = Some (py_int tok) \<rparr>
      else if py_isalpha tok
      then \<lparr> c_raw = tok, c_normalized = int_to_alpha (alpha_to_int tok), c_kind = Some Alpha,
             c_value = Some (alpha_to_int tok) \<rparr>
      else \<lparr> c_raw = tok, c_normalized = tok, c_kind = None, c_value = None \<rparr>)"

definition extract_components :: "string option \<Rightarrow> component list" where
  "extract_components number =
     (case number of
        None \<Rightarrow> []
      | Some n \<Rightarrow> if n = [] then [] else map extract_component (re_findall NUMBER_COMPONENT_RE n))"

definition build_component :: "int \<Rightarrow> kind option \<Rightarrow> component \<Rightarrow> component" where
  "build_component v k template =
     (case k of
        Some Numeric \<Rightarrow>
          (let width = (if py_isdigit (c_raw template) then length (c_raw template) else 0)
           in \<lparr> c_raw = (if width \<noteq> 0 then zfill width (py_str v) else py_str v),
                c_normalized = py_str v, c_kind = k, c_value = Some v \<rparr>)
      | Some Alpha \<Rightarrow>
          (if py_islower (c_raw template)
           then \<lparr> c_raw = py_lower (int_to_alpha v), c_normalized = py_upper (int_to_alpha v),
                  c_kind = k, c_value = Some v \<rparr>
           else \<lparr> c_raw = int_to_alpha v, c_normalized = int_to_alpha v, c_kind = k,
                  c_value = Some v \<rparr>)
      | None \<Rightarrow> \<lparr> c_raw = py_str v, c_normalized = py_str v, c_kind = k, c_value = Some v \<rparr>)"

type_synonym seq_key = "(kind option \<times> int option) list \<times> kind option"

definition prefix_key :: "component list \<Rightarrow> (kind option \<times> int option) list" where
  "prefix_key comps = map (\<lambda>c. (c_kind c, c_value c)) comps"

record gap_scan =
  gs_missing :: "gap list"
  gs_expected_by_key :: "seq_key \<Rightarrow> int option"
  gs_last_index_by_key :: "seq_key \<Rightarrow> nat option"

text \<open>
  One turn of the loop over \<open>enumerate(headers)\<close>.  \<open>components_cache[last_index]\<close> holds
  the components of header \<open>last_index\<close>, which are computed again here.
\<close>

definition identify_step :: "header list \<Rightarrow> gap_scan \<Rightarrow> nat \<times> header \<Rightarrow> gap_scan" where
  "identify_step headers st ih =
     (let idx = fst ih; hdr = snd ih; components = extract_components (h_number hdr)
      in if components = [] then st
         else
          (let prefix_components = butlast components;
               last_component = last components;
               knd = c_kind last_component;
               key = (prefix_key prefix_components, knd)
           in case c_value last_component of
                None \<Rightarrow> st \<lparr> gs_last_index_by_key := (gs_last_index_by_key st)(key \<mapsto> idx) \<rparr>
              | Some v \<Rightarrow>
                 (if knd = None
                  then st \<lparr> gs_last_index_by_key := (gs_last_index_by_key st)(key \<mapsto> idx) \<rparr>
                  else
                   (let expected = gs_expected_by_key st key;
                        last_idx = gs_last_index_by_key st key;
                        template_component =
                          (case last_idx of
                             None \<Rightarrow> last_component
                           | Some li \<Rightarrow>
                               (case extract_components (h_number (headers ! li)) of
                                  [] \<Rightarrow> last_component
                                | previous_components \<Rightarrow> last previous_components));
                        prev_level =
                          (case last_idx of
                             None \<Rightarrow> (if h_level hdr = 0 then 1 else h_level hdr)
                           | Some li \<Rightarrow>
                               (if h_level (headers ! li) = 0 then 1 else h_level (headers ! li)));
                        found =
                          (case expected of
                             None \<Rightarrow> []
                           | Some e \<Rightarrow>
                               (if v > e
                                then map (\<lambda>missing_value.
                                       \<lparr> g_components = prefix_components
                                            @ [build_component missing_value knd template_component],
                                         g_after_index = last_idx,
                                         g_insert_position = (case last_idx of None \<Rightarrow> 0 | Some li \<Rightarrow> li + 1),
                                         g_level = prev_level \<rparr>) [e .. v - 1]
                                else []))
                    in \<lparr> gs_missing = gs_missing st @ found,
                         gs_expected_by_key = (gs_expected_by_key st)(key \<mapsto> v + 1),
                         gs_last_index_by_key = (gs_last_index_by_key st)(key \<mapsto> idx) \<rparr>))))"

definition identify_missing_headers :: "header list \<Rightarrow> gap list" where
  "identify_missing_headers headers =
     gs_missing (foldl (identify_step headers)
        \<lparr> gs_missing = [], gs_expected_by_key = Map.empty, gs_last_index_by_key = Map.empty \<rparr>
        (enumerate 0 headers))"

subsection \<open>Gap filling: \<open>_find_header_in_chunk\<close>\<close>

text \<open>
  \<open>_build_number_pattern\<close>, compiled with \<open>re.IGNORECASE\<close>:
  \<^verbatim>\<open>^\s*[\(\[]?\s*\<close> \<open>joined\<close> \<^verbatim>\<open>(?:\b|[\.).\-\s:])\<close>, where \<open>joined\<close> is the parts
  (\<^verbatim>\<open>0*\<close> and the number for a numeric component, the token otherwise) with
  \<^verbatim>\<open>(?:[\s\.\-\)\(]*?)\<close> between them.
\<close>

definition number_part :: "component \<Rightarrow> rx" where
  "number_part c =
     (if c_kind c = Some Numeric then Cat (Star (Chr CHR ''0'')) (LitI (c_normalized c))
      else LitI (if c_raw c \<noteq> [] then c_raw c else c_normalized c))"

definition separator :: rx where
  "separator = Lazy (Sym (\<lambda>c. is_space c \<or> c \<in> set ''.-)(''))"

fun join_parts :: "rx list \<Rightarrow> rx" where
  "join_parts [] = Eps"
| "join_parts [r] = r"
| "join_parts (r # rs) = Cat r (Cat separator (join_parts rs))"

definition build_number_pattern :: "component list \<Rightarrow> rx option" where
  "build_number_pattern components =
     (if components = [] then None
      else Some (Cats [Look at_start, Star (Sym is_space), Opt (OneOf ''(['' ), Star (Sym is_space),
                       join_parts (map number_part components),
                       Alt (Look word_boundary) (Sym (\<lambda>c. c \<in> set ''.).-:'' \<or> is_space c))]))"

definition components_to_number :: "component list \<Rightarrow> string" where
  "components_to_number components =
     join ''.'' (filter (\<lambda>n. n \<noteq> []) (map c_normalized components))"

text \<open>
  The scan \<open>for idx in range(start_idx, end_idx + 1)\<close>: the first line whose left-stripped
  text the pattern matches at its start.  The result is the line, its stripped text and the
  text after the match.  \<open>lines[idx]\<close> raises \<open>IndexError\<close> out of range.
\<close>

fun scan_chunk :: "rx \<Rightarrow> line list \<Rightarrow> nat list \<Rightarrow> py_error + (line \<times> string \<times> string) option" where
  "scan_chunk pat lines [] = Inr None"
| "scan_chunk pat lines (idx # rest) =
     (if idx \<ge> length lines then Inl IndexError
      else (let stripped = py_lstrip (l_text (lines ! idx))
            in case re_match pat stripped of
                 None \<Rightarrow> scan_chunk pat lines rest
               | Some z \<Rightarrow> Inr (Some (lines ! idx, stripped, snd z))))"

text \<open>
  The recovered title is the text after the numbering, stripped of \<^verbatim>\<open> -.):\t\<close> on the
  left, and the whole stripped line when nothing is left: \<open>remainder or stripped\<close>.
\<close>

definition scan_range :: "(int \<Rightarrow> nat option) \<Rightarrow> chunk \<Rightarrow> nat list" where
  "scan_range index_by_global chnk =
     (let start_idx = (case index_by_global (ch_start_global_idx chnk) of None \<Rightarrow> 0 | Some i \<Rightarrow> i);
          end_idx = (case index_by_global (ch_end_global_idx chnk) of None \<Rightarrow> start_idx | Some i \<Rightarrow> i)
      in [start_idx ..< end_idx + 1])"

definition recovered_header :: "chunk \<Rightarrow> component list \<Rightarrow> int \<Rightarrow> line \<Rightarrow> string \<Rightarrow> string \<Rightarrow> header" where
  "recovered_header chnk components fallback_level ln stripped rest =
     (let remainder = py_lstrip_chars [CHR '' '', CHR ''-'', CHR ''.'', CHR '')'', CHR '':'', CHR 0x09] rest;
          header_text = (if remainder \<noteq> [] then remainder else stripped);
          lvl = (if ch_level chnk \<noteq> 0 then ch_level chnk
                 else if fallback_level \<noteq> 0 then fallback_level else 1)
      in \<lparr> h_text = header_text, h_number = Some (components_to_number components),
           h_level = lvl, h_page = l_page ln, h_line_idx = l_line_idx ln,
           h_global_idx = l_global_idx ln, h_source_idx = -1 \<rparr>)"

definition find_header_in_chunk ::
  "chunk \<Rightarrow> line list \<Rightarrow> component list \<Rightarrow> (int \<Rightarrow> nat option) \<Rightarrow> int \<Rightarrow> py_error + header option" where
  "find_header_in_chunk chnk lines components index_by_global fallback_level =
     (case build_number_pattern components of
        None \<Rightarrow> Inr None
      | Some pat \<Rightarrow>
         (case scan_chunk pat lines (scan_range index_by_global chnk) of
            Inl e \<Rightarrow> Inl e
          | Inr None \<Rightarrow> Inr None
          | Inr (Some (ln, stripped, rest)) \<Rightarrow>
              Inr (Some (recovered_header chnk components fallback_level ln stripped rest))))"

subsection \<open>\<open>headers_orchestrator._enforce_header_sequence\<close>\<close>

text \<open>
  \<open>_order_key\<close>: a tuple of integers, compared as Python compares tuples, which is the
  lexicographic order of \<^typ>\<open>int list\<close>.  A falsy number gives \<open>[-1]\<close>.
\<close>

definition order_key :: "header \<Rightarrow> int list" where
  "order_key hdr =
     (let ord = (case h_number hdr of None \<Rightarrow> [-1] | Some n \<Rightarrow> if n = [] then [-1] else number_key n)
      in if h_source_idx hdr \<ge> 0
         then h_source_idx hdr # ord @ [h_level hdr, h_global_idx hdr]
         else ord @ [h_level hdr, h_global_idx hdr])"

definition working_header :: "header \<Rightarrow> header" where
  "working_header hdr =
     hdr \<lparr> h_text := py_strip (h_text hdr),
           h_number := (case h_number hdr of None \<Rightarrow> None | Some n \<Rightarrow> if n = [] then None else Some n),
           h_level := (if h_level hdr = 0 then 1 else h_level hdr) \<rparr>"

text \<open>
  The dictionary comprehension of the loop keeps the last line of each \<open>global_idx\<close>.
\<close>

definition index_by_global_last :: "line list \<Rightarrow> int \<Rightarrow> nat option" where
  "index_by_global_last lines g = last_index (\<lambda>l. l_global_idx l = g) lines"

text \<open>
  The loop over the gaps: the first gap with a chunk, a matching line in that chunk, and a
  \<open>global_idx\<close> no header has yet.
\<close>

fun first_insertable ::
  "header list \<Rightarrow> chunk list \<Rightarrow> line list \<Rightarrow> gap list \<Rightarrow> py_error + (gap \<times> header) option" where
  "first_insertable working sections lines [] = Inr None"
| "first_insertable working sections lines (g # gaps) =
     (case g_after_index g of
        None \<Rightarrow> first_insertable working sections lines gaps
      | Some after_index \<Rightarrow>
          (if after_index \<ge> length sections then first_insertable working sections lines gaps
           else case find_header_in_chunk (sections ! after_index) lines (g_components g)
                       (index_by_global_last lines) (g_level g) of
                  Inl e \<Rightarrow> Inl e
                | Inr None \<Rightarrow> first_insertable working sections lines gaps
                | Inr (Some candidate) \<Rightarrow>
                    (if list_ex (\<lambda>existing. h_global_idx existing = h_global_idx candidate) working
                     then first_insertable working sections lines gaps
                     else Inr (Some (g, candidate)))))"

text \<open>
  One turn of the \<open>while True\<close> loop: \<open>None\<close> when the loop breaks (no gap, or nothing
  inserted), the new headers and chunks otherwise.
\<close>

definition gap_fill_step ::
  "header list \<Rightarrow> chunk list \<Rightarrow> line list \<Rightarrow> py_error + (header list \<times> chunk list) option" where
  "gap_fill_step working sections lines =
     (let gaps = identify_missing_headers working
      in if gaps = [] then Inr None
         else case first_insertable working sections lines gaps of
                Inl e \<Rightarrow> Inl e
              | Inr None \<Rightarrow> Inr None
              | Inr (Some (g, candidate)) \<Rightarrow>
                  (let insert_position = min (g_insert_position g) (length working);
                       inserted = take insert_position working @ candidate # drop insert_position working;
                       working' = sort_key h_global_idx inserted
                   in Inr (Some (working', single_chunks_from_headers working' lines))))"

text \<open>
  The loop stops: a turn that goes on has inserted a header on a line no header was on.
\<close>

lemma first_index_Some: "first_index P xs = Some i \<Longrightarrow> i < length xs \<and> P (xs ! i)"
  by (induction xs arbitrary: i) (auto split: if_splits)

lemma first_index_None: "first_index P xs = None \<longleftrightarrow> (\<forall>x\<in>set xs. \<not> P x)"
  by (induction xs) auto


lemma scan_chunk_line:
  "scan_chunk pat lines idxs = Inr (Some (ln, st, rest)) \<Longrightarrow> ln \<in> set lines"
  by (induction idxs) (auto simp: Let_def split: if_splits option.splits)

lemma find_header_in_chunk_gidx:
  "find_header_in_chunk chnk lines comps ibg lvl = Inr (Some cand)
   \<Longrightarrow> h_global_idx cand \<in> l_global_idx ` set lines"
  unfolding find_header_in_chunk_def recovered_header_def
  by (auto simp: Let_def split: option.splits sum.splits dest!: scan_chunk_line)

lemma first_insertable_Some:
  "first_insertable w s lines gaps = Inr (Some (g, cand))
   \<Longrightarrow> h_global_idx cand \<in> l_global_idx ` set lines \<and> h_global_idx cand \<notin> h_global_idx ` set w"
  by (induction gaps)
     (auto simp: list_ex_iff split: option.splits if_splits sum.splits dest: find_header_in_chunk_gidx)

lemma set_insert_at: "set (take n xs @ x # drop n xs) = insert x (set xs)"
proof -
  have "set (take n xs) \<union> set (drop n xs) = set xs"
    by (metis append_take_drop_id set_append)
  then show ?thesis by auto
qed

lemma gap_fill_step_set:
  assumes "gap_fill_step w s lines = Inr (Some (w', s'))"
  shows "\<exists>cand. set w' = insert cand (set w)
           \<and> h_global_idx cand \<in> l_global_idx ` set lines
           \<and> h_global_idx cand \<notin> h_global_idx ` set w
           \<and> s' = single_chunks_from_headers w' lines"
proof -
  let ?gaps = "identify_missing_headers w"
  have "\<exists>g cand. first_insertable w s lines ?gaps = Inr (Some (g, cand))
           \<and> w' = sort_key h_global_idx (take (min (g_insert_position g) (length w)) w
                    @ cand # drop (min (g_insert_position g) (length w)) w)
           \<and> s' = single_chunks_from_headers w' lines"
    using assms unfolding gap_fill_step_def Let_def
    by (auto split: if_splits sum.splits option.splits prod.splits)
  then obtain g cand where fi: "first_insertable w s lines ?gaps = Inr (Some (g, cand))"
    and w': "w' = sort_key h_global_idx (take (min (g_insert_position g) (length w)) w
                    @ cand # drop (min (g_insert_position g) (length w)) w)"
    and s': "s' = single_chunks_from_headers w' lines"
    by blast
  have "set w' = insert cand (set w)"
    unfolding w' by (simp only: set_sort set_insert_at)
  with first_insertable_Some [OF fi] s' show ?thesis by blast
qed

lemma gap_fill_step_measure:
  assumes "gap_fill_step w s lines = Inr (Some (w', s'))"
  shows "card (l_global_idx ` set lines - h_global_idx ` set w')
       < card (l_global_idx ` set lines - h_global_idx ` set w)"
proof -
  from gap_fill_step_set [OF assms] obtain cand where w': "set w' = insert cand (set w)"
    and inl: "h_global_idx cand \<in> l_global_idx ` set lines"
    and new: "h_global_idx cand \<notin> h_global_idx ` set w"
    by blast
  let ?L = "l_global_idx ` set lines"
  let ?W = "h_global_idx ` set w"
  have eq: "?L - h_global_idx ` set w' = (?L - ?W) - {h_global_idx cand}"
    unfolding w' by auto
  have mem: "h_global_idx cand \<in> ?L - ?W"
    using inl new by simp
  have "card ((?L - ?W) - {h_global_idx cand}) < card (?L - ?W)"
    by (rule card_Diff1_less) (use mem in auto)
  then show ?thesis
    unfolding eq .
qed

function enforce_loop ::
  "header list \<Rightarrow> chunk list \<Rightarrow> line list \<Rightarrow> py_error + (header list \<times> chunk list)" where
  "enforce_loop working sections lines =
     (case gap_fill_step working sections lines of
        Inl e \<Rightarrow> Inl e
      | Inr None \<Rightarrow> Inr (working, sections)
      | Inr (Some (working', sections')) \<Rightarrow> enforce_loop working' sections' lines)"
  by pat_completeness auto
termination
  by (relation "measure (\<lambda>(w, s, lines). card (l_global_idx ` set lines - h_global_idx ` set w))")
     (auto dest: gap_fill_step_measure)

text \<open>
  The headers come back sorted by \<open>global_idx\<close> and then, stably, by \<open>_order_key\<close>; the last
  loop pops \<open>source_idx\<close> from each.
\<close>

definition pop_source_idx :: "header \<Rightarrow> header" where
  "pop_source_idx hdr = hdr \<lparr> h_source_idx := -1 \<rparr>"

definition final_order :: "header list \<Rightarrow> header list" where
  "final_order working = sort_key order_key (sort_key h_global_idx working)"

definition enforce_header_sequence ::
  "header list \<Rightarrow> line list \<Rightarrow> py_error + (header list \<times> chunk list)" where
  "enforce_header_sequence headers lines =
     (if headers = [] then Inr ([], [])
      else (let working = final_order (map working_header headers);
                sections = single_chunks_from_headers working lines
            in case enforce_loop working sections lines of
                 Inl e \<Rightarrow> Inl e
               | Inr (working', sections') \<Rightarrow>
                   Inr (map pop_source_idx (final_order working'), sections')))"

section \<open>The final order of the headers (C1)\<close>








text \<open>
  The helpers of \<open>tests/test_headers_orchestrator.py\<close>: a line and a located header with
  no \<open>source_idx\<close>; and a located header as \<open>locate_headers_in_lines\<close> returns it, with
  the position of its oracle header as \<open>source_idx\<close>.
\<close>

definition test_line :: "string \<Rightarrow> int \<Rightarrow> line" where
  "test_line t g =
     \<lparr> l_text = t, l_page = 1, l_global_idx = g, l_line_idx = g,
       l_is_toc = False, l_is_index = False, l_is_running = False \<rparr>"

definition test_header :: "string \<Rightarrow> string \<Rightarrow> int \<Rightarrow> header" where
  "test_header t n g =
     \<lparr> h_text = t, h_number = Some n, h_level = 1, h_page = 1, h_line_idx = g,
       h_global_idx = g, h_source_idx = -1 \<rparr>"




section \<open>The gap filler accepts a bare number (C8)\<close>

lemma scan_chunk_first:
  "scan_chunk pat lines idxs = Inr (Some (ln, st, rest)) \<Longrightarrow>
   \<exists>k z. k < length idxs \<and> idxs ! k < length lines \<and> ln = lines ! (idxs ! k)
        \<and> st = py_lstrip (l_text ln) \<and> re_match pat st = Some z \<and> rest = snd z
        \<and> (\<forall>j<k. re_match pat (py_lstrip (l_text (lines ! (idxs ! j)))) = None)"
proof (induction idxs)
  case Nil
  then show ?case by simp
next
  case (Cons idx idxs)
  from Cons.prems have inb: "idx < length lines" by (auto split: if_splits)
  show ?case
  proof (cases "re_match pat (py_lstrip (l_text (lines ! idx)))")
    case None
    with Cons.prems inb have "scan_chunk pat lines idxs = Inr (Some (ln, st, rest))"
      by (simp add: Let_def)
    from Cons.IH [OF this] obtain k z where k: "k < length idxs" "idxs ! k < length lines"
      "ln = lines ! (idxs ! k)" "st = py_lstrip (l_text ln)" "re_match pat st = Some z" "rest = snd z"
      "\<forall>j<k. re_match pat (py_lstrip (l_text (lines ! (idxs ! j)))) = None"
      by blast
    have "\<forall>j<Suc k. re_match pat (py_lstrip (l_text (lines ! ((idx # idxs) ! j)))) = None"
      using k(7) None by (auto simp: less_Suc_eq_0_disj)
    with k show ?thesis by (intro exI [of _ "Suc k"] exI [of _ z]) simp
  next
    case (Some z)
    with Cons.prems inb show ?thesis
      by (intro exI [of _ 0] exI [of _ z]) (auto simp: Let_def)
  qed
qed

text \<open>
  C8, as stated: a line is accepted only if the text after its numbering is non-empty; a
  line that is the bare number is never inserted.

  It fails.  Headers 1 and 3 are anchored and the only line between them reads \<open>2\<close>: the
  gap filler inserts it as header 2, with the number as its title (\<open>remainder or stripped\<close>).
\<close>

theorem bare_number_inserted:
  "enforce_header_sequence [test_header ''Scope'' ''1'' 0, test_header ''Execution'' ''3'' 2]
       [test_line ''1. Scope'' 0, test_line ''2'' 1, test_line ''3. Execution'' 2]
     = Inr ([test_header ''Scope'' ''1'' 0, test_header ''2'' ''2'' 1, test_header ''Execution'' ''3'' 2],
            single_chunks_from_headers
              [test_header ''Scope'' ''1'' 0, test_header ''2'' ''2'' 1, test_header ''Execution'' ''3'' 2]
              [test_line ''1. Scope'' 0, test_line ''2'' 1, test_line ''3. Execution'' 2])"
  by code_simp

text \<open>
  C8, amended: the gap filler accepts the first line of the scanned chunk whose left-stripped
  text the numbering pattern matches at its start.  The recovered header sits on that line;
  its title is the text after the match, stripped of \<^verbatim>\<open> -.):\t\<close> on the left, when that
  is non-empty, and the whole stripped line otherwise.
\<close>

theorem find_header_in_chunk_accepts:
  assumes "find_header_in_chunk chnk lines comps ibg lvl = Inr (Some cand)"
  shows "\<exists>pat k z. build_number_pattern comps = Some pat
           \<and> k < length (scan_range ibg chnk)
           \<and> scan_range ibg chnk ! k < length lines
           \<and> re_match pat (py_lstrip (l_text (lines ! (scan_range ibg chnk ! k)))) = Some z
           \<and> (\<forall>j<k. re_match pat (py_lstrip (l_text (lines ! (scan_range ibg chnk ! j)))) = None)
           \<and> h_global_idx cand = l_global_idx (lines ! (scan_range ibg chnk ! k))
           \<and> h_text cand =
               (if py_lstrip_chars [CHR '' '', CHR ''-'', CHR ''.'', CHR '')'', CHR '':'', CHR 0x09] (snd z) \<noteq> []
                then py_lstrip_chars [CHR '' '', CHR ''-'', CHR ''.'', CHR '')'', CHR '':'', CHR 0x09] (snd z)
                else py_lstrip (l_text (lines ! (scan_range ibg chnk ! k))))"
proof -
  from assms obtain pat ln st rest where pat: "build_number_pattern comps = Some pat"
    and sc: "scan_chunk pat lines (scan_range ibg chnk) = Inr (Some (ln, st, rest))"
    and cand: "cand = recovered_header chnk comps lvl ln st rest"
    unfolding find_header_in_chunk_def
    by (auto split: option.splits sum.splits)
  from scan_chunk_first [OF sc] obtain k z where k: "k < length (scan_range ibg chnk)"
    "scan_range ibg chnk ! k < length lines" "ln = lines ! (scan_range ibg chnk ! k)"
    "st = py_lstrip (l_text ln)" "re_match pat st = Some z" "rest = snd z"
    "\<forall>j<k. re_match pat (py_lstrip (l_text (lines ! (scan_range ibg chnk ! j)))) = None"
    by blast
  have "h_global_idx cand = l_global_idx ln"
    unfolding cand recovered_header_def by (simp add: Let_def)
  moreover have "h_text cand =
      (if py_lstrip_chars [CHR '' '', CHR ''-'', CHR ''.'', CHR '')'', CHR '':'', CHR 0x09] rest \<noteq> []
       then py_lstrip_chars [CHR '' '', CHR ''-'', CHR ''.'', CHR '')'', CHR '':'', CHR 0x09] rest
       else st)"
    unfolding cand recovered_header_def by (simp add: Let_def)
  ultimately show ?thesis
    using pat k by (intro exI [of _ pat] exI [of _ k] exI [of _ z]) simp
qed

theorem find_header_in_chunk_accepts_witness:
  "find_header_in_chunk
      \<lparr> ch_header_text = ''Scope'', ch_header_number = Some ''1'', ch_level = 1,
        ch_start_global_idx = 0, ch_end_global_idx = 1, ch_start_page = 1, ch_end_page = 1 \<rparr>
      [test_line ''1. Scope'' 0, test_line ''2'' 1, test_line ''3. Execution'' 2]
      (extract_components (Some ''2''))
      (index_by_global_last [test_line ''1. Scope'' 0, test_line ''2'' 1, test_line ''3. Execution'' 2])
      1
     = Inr (Some (test_header ''2'' ''2'' 1))
   \<and> h_global_idx (test_header ''2'' ''2'' 1) = 1
   \<and> h_text (test_header ''2'' ''2'' 1) = ''2''"
proof -
  let ?chnk = "\<lparr> ch_header_text = ''Scope'', ch_header_number = Some ''1'', ch_level = 1,
        ch_start_global_idx = 0, ch_end_global_idx = 1, ch_start_page = 1, ch_end_page = 1 \<rparr>"
  let ?lines = "[test_line ''1. Scope'' 0, test_line ''2'' 1, test_line ''3. Execution'' 2]"
  have h: "find_header_in_chunk ?chnk ?lines (extract_components (Some ''2''))
             (index_by_global_last ?lines) 1 = Inr (Some (test_header ''2'' ''2'' 1))"
    by code_simp
  from find_header_in_chunk_accepts [OF h]
  have "h_global_idx (test_header ''2'' ''2'' 1) \<in> l_global_idx ` set ?lines"
    by (metis nth_mem imageI)
  then have "h_global_idx (test_header ''2'' ''2'' 1) = 1"
    by (simp add: test_header_def)
  with h show ?thesis by (simp add: test_header_def)
qed

section \<open>Section chunks (C3)\<close>

text \<open>
  The claim in the spec's words: the ranges, read as half-open \<open>[start, end)\<close>, are
  contiguous (each end is the next start) and their union is
  \<open>[first_anchor, last_line + 1)\<close>.
\<close>

definition chunk_range :: "chunk \<Rightarrow> int \<times> int" where
  "chunk_range c = (ch_start_global_idx c, ch_end_global_idx c)"

definition spec_section_coverage :: "(int \<times> int) list \<Rightarrow> int \<Rightarrow> int \<Rightarrow> bool" where
  "spec_section_coverage spans first_anchor last_line \<longleftrightarrow>
     map snd (butlast spans) = map fst (tl spans)
     \<and> (\<Union>s\<in>set spans. {fst s ..< snd s}) = {first_anchor ..< last_line + 1}"

text \<open>The lines of a chunk, its range read as closed: \<open>end_global_idx\<close> is its last line.\<close>

definition chunk_lines :: "chunk \<Rightarrow> line list \<Rightarrow> line list" where
  "chunk_lines c lines =
     filter (\<lambda>l. ch_start_global_idx c \<le> l_global_idx l \<and> l_global_idx l \<le> ch_end_global_idx c) lines"

text \<open>
  C3, as stated, fails on the chunks the pipeline returns as \<open>sections\<close>.  On the input of
  \<open>test_single_chunks_from_headers_produces_ranges\<close> (headers on lines 0 and 2 of four
  lines) the chunks are \<open>(0, 1)\<close> and \<open>(2, 3)\<close>: \<open>end_global_idx\<close> is the last line of the
  chunk, not the start of the next one.
\<close>

theorem chunks_end_inclusive:
  "map chunk_range (single_chunks_from_headers
       [test_header ''Intro'' ''1'' 0, test_header ''Details'' ''1.1'' 2]
       [test_line ''Intro'' 0, test_line ''a'' 1, test_line ''Details'' 2, test_line ''b'' 3])
     = [(0, 1), (2, 3)]
   \<and> \<not> spec_section_coverage [(0, 1), (2, 3)] 0 3"
  by (simp add: spec_section_coverage_def chunk_range_def test_header_def test_line_def
        index_by_global_first_def make_chunk_def)

lemma sorted_nth_less:
  "sorted_wrt (<) (map f xs) \<Longrightarrow> i < j \<Longrightarrow> j < length xs \<Longrightarrow> (f (xs ! i) :: int) < f (xs ! j)"
  by (simp add: sorted_wrt_iff_nth_less)

lemma sorted_nth_mono:
  "sorted_wrt (<) (map f xs) \<Longrightarrow> i \<le> j \<Longrightarrow> j < length xs \<Longrightarrow> (f (xs ! i) :: int) \<le> f (xs ! j)"
  using sorted_nth_less [of f xs i j] by (cases "i = j") auto

lemma sorted_nth_less_iff:
  assumes "sorted_wrt (<) (map f xs)" "i < length xs" "j < length xs"
  shows "(f (xs ! i) :: int) < f (xs ! j) \<longleftrightarrow> i < j"
  using sorted_nth_less [OF assms(1), of i j] sorted_nth_mono [OF assms(1), of j i] assms(2,3)
  by (cases "i < j") (auto simp: not_less)

lemma first_index_sorted:
  assumes "sorted_wrt (<) (map f xs)" "i < length xs"
  shows "first_index (\<lambda>x. f x = (f (xs ! i) :: int)) xs = Some i"
proof -
  have "\<exists>k. first_index (\<lambda>x. f x = f (xs ! i)) xs = Some k"
    using assms(2) first_index_None [of "\<lambda>x. f x = f (xs ! i)" xs] by (cases "first_index (\<lambda>x. f x = f (xs ! i)) xs") auto
  then obtain k where k: "first_index (\<lambda>x. f x = f (xs ! i)) xs = Some k" by blast
  from first_index_Some [OF k] have "k < length xs" "f (xs ! k) = f (xs ! i)" by auto
  with sorted_nth_less_iff [OF assms(1), of k i] sorted_nth_less_iff [OF assms(1), of i k] assms(2)
  have "k = i" by (metis less_irrefl linorder_neqE_nat)
  with k show ?thesis by simp
qed

lemma dropWhile_below:
  assumes "sorted_wrt (<) (map f xs)" "i < length xs"
  shows "dropWhile (\<lambda>x. f x < (f (xs ! i) :: int)) xs = drop i xs"
proof -
  have "takeWhile (\<lambda>x. f x < f (xs ! i)) xs = take i xs"
    by (rule takeWhile_eq_take_P_nth) (use assms sorted_nth_less [OF assms(1)] in auto)
  then show ?thesis using assms(2) by (simp add: dropWhile_eq_drop)
qed

lemma filter_range_sorted:
  assumes "sorted_wrt (<) (map f xs)" "i \<le> j" "j < length xs"
  shows "filter (\<lambda>x. (f (xs ! i) :: int) \<le> f x \<and> f x \<le> f (xs ! j)) xs = take (Suc j - i) (drop i xs)"
proof -
  let ?P = "\<lambda>x. f (xs ! i) \<le> f x \<and> f x \<le> f (xs ! j)"
  have split: "xs = take i xs @ take (Suc j - i) (drop i xs) @ drop (Suc j) xs"
    using assms(2,3) by (metis Suc_diff_le add_diff_cancel_left' append_take_drop_id le_Suc_eq le_add_diff_inverse take_add drop_drop add.commute)
  have a: "filter ?P (take i xs) = []"
  proof -
    have "\<forall>x\<in>set (take i xs). \<not> ?P x"
    proof
      fix x assume "x \<in> set (take i xs)"
      then obtain k where "k < i" "k < length xs" "x = xs ! k"
        by (auto simp: in_set_conv_nth)
      with sorted_nth_less [OF assms(1), of k i] assms show "\<not> ?P x" by auto
    qed
    then show ?thesis by simp
  qed
  have b: "filter ?P (take (Suc j - i) (drop i xs)) = take (Suc j - i) (drop i xs)"
  proof -
    have "\<forall>x\<in>set (take (Suc j - i) (drop i xs)). ?P x"
    proof
      fix x assume "x \<in> set (take (Suc j - i) (drop i xs))"
      then obtain k where "k < Suc j - i" "i + k < length xs" "x = xs ! (i + k)"
        by (auto simp: in_set_conv_nth)
      with sorted_nth_mono [OF assms(1), of i "i + k"] sorted_nth_mono [OF assms(1), of "i + k" j] assms
      show "?P x" by auto
    qed
    then show ?thesis by simp
  qed
  have c: "filter ?P (drop (Suc j) xs) = []"
  proof -
    have "\<forall>x\<in>set (drop (Suc j) xs). \<not> ?P x"
    proof
      fix x assume "x \<in> set (drop (Suc j) xs)"
      then obtain k where "k < length (drop (Suc j) xs)" "x = drop (Suc j) xs ! k"
        by (metis in_set_conv_nth)
      then have "Suc j + k < length xs" "x = xs ! (Suc j + k)" by auto
      with sorted_nth_less [OF assms(1), of j "Suc j + k"] show "\<not> ?P x" by auto
    qed
    then show ?thesis by simp
  qed
  have "filter ?P xs = filter ?P (take i xs @ take (Suc j - i) (drop i xs) @ drop (Suc j) xs)"
    using split by simp
  also have "\<dots> = take (Suc j - i) (drop i xs)"
    by (simp only: filter_append a b c append_Nil append_Nil2)
  finally show ?thesis .
qed


lemma take_drop_glue: "c \<le> n \<Longrightarrow> take (n - c) (drop c xs) @ drop n xs = drop c xs"
  by (metis append_take_drop_id drop_drop le_add_diff_inverse2)

lemma single_chunks_partition_aux:
  assumes srt: "sorted_wrt (<) (map l_global_idx lines)"
  shows "hs \<noteq> [] \<Longrightarrow> sorted_wrt (<) (map h_global_idx hs)
     \<Longrightarrow> h_global_idx ` set hs \<subseteq> l_global_idx ` set lines
     \<Longrightarrow> concat (map (\<lambda>c. chunk_lines c lines) (single_chunks_from_headers hs lines))
         = dropWhile (\<lambda>l. l_global_idx l < h_global_idx (hd hs)) lines
       \<and> map ch_start_global_idx (single_chunks_from_headers hs lines) = map h_global_idx hs"
proof (induction hs)
  case Nil
  then show ?case by simp
next
  case (Cons h rest)
  from Cons.prems(3) obtain cur where cur: "cur < length lines" "l_global_idx (lines ! cur) = h_global_idx h"
    by (auto simp: in_set_conv_nth image_iff)
  have fi: "index_by_global_first lines (h_global_idx h) = Some cur"
    unfolding index_by_global_first_def using first_index_sorted [OF srt cur(1)] cur(2) by simp
  have dw: "dropWhile (\<lambda>l. l_global_idx l < h_global_idx h) lines = drop cur lines"
    using dropWhile_below [OF srt cur(1)] cur(2) by simp
  show ?case
  proof (cases rest)
    case Nil
    have "chunk_lines (make_chunk h (lines ! cur) (lines ! (length lines - 1))) lines
            = take (Suc (length lines - 1) - cur) (drop cur lines)"
      unfolding chunk_lines_def make_chunk_def
      using filter_range_sorted [OF srt, of cur "length lines - 1"] cur(1) by simp
    also have "\<dots> = drop cur lines" using cur(1) by simp
    finally show ?thesis using Nil fi cur dw
      by (simp add: Let_def nat_diff_distrib' make_chunk_def)
  next
    case (Cons nh rest')
    from Cons.prems(3) Cons obtain nxt where nxt: "nxt < length lines" "l_global_idx (lines ! nxt) = h_global_idx nh"
      by (auto simp: in_set_conv_nth image_iff)
    have fin: "index_by_global_first lines (h_global_idx nh) = Some nxt"
      unfolding index_by_global_first_def using first_index_sorted [OF srt nxt(1)] nxt(2) by simp
    from Cons.prems(2) Cons have "h_global_idx h < h_global_idx nh" by simp
    with sorted_nth_less_iff [OF srt cur(1) nxt(1)] cur(2) nxt(2) have lt: "cur < nxt" by simp
    have dwn: "dropWhile (\<lambda>l. l_global_idx l < h_global_idx nh) lines = drop nxt lines"
      using dropWhile_below [OF srt nxt(1)] nxt(2) by simp
    have ih: "concat (map (\<lambda>c. chunk_lines c lines) (single_chunks_from_headers rest lines)) = drop nxt lines
        \<and> map ch_start_global_idx (single_chunks_from_headers rest lines) = map h_global_idx rest"
      using Cons.IH Cons.prems Cons dwn by simp
    have "chunk_lines (make_chunk h (lines ! cur) (lines ! (nxt - 1))) lines
            = take (Suc (nxt - 1) - cur) (drop cur lines)"
      unfolding chunk_lines_def make_chunk_def
      using filter_range_sorted [OF srt, of cur "nxt - 1"] cur(1) nxt(1) lt by simp
    also have "\<dots> = take (nxt - cur) (drop cur lines)" using lt by simp
    finally have cl: "chunk_lines (make_chunk h (lines ! cur) (lines ! (nxt - 1))) lines
                        = take (nxt - cur) (drop cur lines)" .
    have sc: "single_chunks_from_headers (h # rest) lines
               = make_chunk h (lines ! cur) (lines ! (nxt - 1)) # single_chunks_from_headers rest lines"
      using Cons fi fin lt by (simp add: Let_def nat_diff_distrib' max_def)
    show ?thesis
      unfolding sc using cl ih dw take_drop_glue [of cur nxt lines] lt cur
      by (simp add: make_chunk_def)
  qed
qed


text \<open>
  C3, amended: \<open>single_chunks_from_headers\<close> emits closed ranges
  \<open>[start_global_idx, end_global_idx]\<close>.  When the lines carry strictly increasing
  \<open>global_idx\<close> and the headers are anchored on lines, in strictly increasing order, there
  is one chunk per header, starting on its line, and the chunks laid end to end are exactly
  the lines from the first anchor to the last line: no gap, no overlap.
\<close>

theorem single_chunks_partition:
  assumes "sorted_wrt (<) (map l_global_idx lines)"
    and "hs \<noteq> []"
    and "sorted_wrt (<) (map h_global_idx hs)"
    and "h_global_idx ` set hs \<subseteq> l_global_idx ` set lines"
  shows "map ch_start_global_idx (single_chunks_from_headers hs lines) = map h_global_idx hs
       \<and> concat (map (\<lambda>c. chunk_lines c lines) (single_chunks_from_headers hs lines))
           = dropWhile (\<lambda>l. l_global_idx l < h_global_idx (hd hs)) lines"
  using single_chunks_partition_aux [OF assms] by simp

theorem single_chunks_partition_witness:
  "sorted_wrt (<) (map l_global_idx
       [test_line ''Intro'' 0, test_line ''a'' 1, test_line ''Details'' 2, test_line ''b'' 3])
   \<and> sorted_wrt (<) (map h_global_idx [test_header ''Intro'' ''1'' 0, test_header ''Details'' ''1.1'' 2])
   \<and> map ch_start_global_idx (single_chunks_from_headers
        [test_header ''Intro'' ''1'' 0, test_header ''Details'' ''1.1'' 2]
        [test_line ''Intro'' 0, test_line ''a'' 1, test_line ''Details'' 2, test_line ''b'' 3])
      = [0, 2]
   \<and> concat (map (\<lambda>c. chunk_lines c
          [test_line ''Intro'' 0, test_line ''a'' 1, test_line ''Details'' 2, test_line ''b'' 3])
        (single_chunks_from_headers
          [test_header ''Intro'' ''1'' 0, test_header ''Details'' ''1.1'' 2]
          [test_line ''Intro'' 0, test_line ''a'' 1, test_line ''Details'' 2, test_line ''b'' 3]))
      = [test_line ''Intro'' 0, test_line ''a'' 1, test_line ''Details'' 2, test_line ''b'' 3]"
proof -
  let ?lines = "[test_line ''Intro'' 0, test_line ''a'' 1, test_line ''Details'' 2, test_line ''b'' 3]"
  let ?hs = "[test_header ''Intro'' ''1'' 0, test_header ''Details'' ''1.1'' 2]"
  have a: "sorted_wrt (<) (map l_global_idx ?lines)" by (simp add: test_line_def)
  have b: "?hs \<noteq> []" by simp
  have c: "sorted_wrt (<) (map h_global_idx ?hs)" by (simp add: test_header_def)
  have d: "h_global_idx ` set ?hs \<subseteq> l_global_idx ` set ?lines"
    by (simp add: test_header_def test_line_def)
  from single_chunks_partition [OF a b c d] a c show ?thesis
    by (simp add: test_header_def test_line_def)
qed

end
